theory Spec2Isabelle
  imports Main
begin

section \<open>Python values, dictionaries and errors\<close>

text \<open>
  The module \<^verbatim>\<open>dagster_airlift/core/serialization/serialized_data.py\<close> declares the
  records that are cached between calls to the Airflow API. Its \<^verbatim>\<open>metadata\<close> fields
  have the type \<^verbatim>\<open>Dict[str, Any]\<close>, so the values stored there are untyped Python
  values. The fragment of them that the accessors can tell apart is modelled here.
\<close>

datatype pyval =
    PNone
  | PBool bool
  | PInt int
  | PStr string
  | PList "pyval list"
  | PTuple "pyval list"
  | PDict "(string \<times> pyval) list"

text \<open>
  The exceptions the accessors can raise: \<^verbatim>\<open>KeyError\<close> from subscripting a dict with
  an absent key, and \<^verbatim>\<open>CheckError\<close> from \<^verbatim>\<open>dagster._check\<close>.
\<close>

datatype error = KeyError string | CheckError

text \<open>
  A Python \<^verbatim>\<open>dict\<close> keeps its keys in insertion order and holds each key once. It is
  an association list: \<^verbatim>\<open>d[k] = v\<close> replaces the value in place when the key is
  present and appends the pair otherwise.
\<close>

type_synonym ('k, 'v) dict = "('k \<times> 'v) list"

fun dict_set :: "('k, 'v) dict \<Rightarrow> 'k \<Rightarrow> 'v \<Rightarrow> ('k, 'v) dict" where
  "dict_set [] k v = [(k, v)]"
| "dict_set ((k', v') # d) k v =
     (if k' = k then (k', v) # d else (k', v') # dict_set d k v)"

text \<open>\<^verbatim>\<open>d.get(k)\<close>: the value, or \<^verbatim>\<open>None\<close>.\<close>

definition dict_get :: "('k, 'v) dict \<Rightarrow> 'k \<Rightarrow> 'v option" where
  "dict_get d k = map_of d k"

text \<open>\<^verbatim>\<open>d[k]\<close> on a dict with string keys: the value, or \<^verbatim>\<open>KeyError(k)\<close>.\<close>

definition dict_getitem :: "(string, 'v) dict \<Rightarrow> string \<Rightarrow> error + 'v" where
  "dict_getitem d k = (case map_of d k of None \<Rightarrow> Inl (KeyError k) | Some v \<Rightarrow> Inr v)"

text \<open>
  An f-string is a sequence of literal text and replacement fields. Every replacement
  field of this module holds a \<^verbatim>\<open>str\<close>, whose formatting is the string itself.
\<close>

datatype fpart = Text string | Field string

fun fstring :: "fpart list \<Rightarrow> string" where
  "fstring [] = []"
| "fstring (Text s # ps) = s @ fstring ps"
| "fstring (Field s # ps) = s @ fstring ps"

text \<open>\<^verbatim>\<open>isinstance(v, str)\<close>.\<close>

fun isinstance_str :: "pyval \<Rightarrow> bool" where
  "isinstance_str (PStr s) = True"
| "isinstance_str v = False"

text \<open>
  Modelled from the spec: \<^verbatim>\<open>check.is_list(obj, of_type)\<close> of \<^verbatim>\<open>dagster._check\<close>, which
  is imported by the module and is not part of it. The value must be a sequence of
  strings; "absence or wrong type is a schema-contract violation (fails fast, not
  silently defaulted)". The caller passes \<^verbatim>\<open>str\<close> as the element type and declares
  the result a \<^verbatim>\<open>List[str]\<close>: a list whose elements are all strings is returned as
  it is, anything else raises \<^verbatim>\<open>CheckError\<close>.
\<close>

definition is_list :: "pyval \<Rightarrow> error + pyval" where
  "is_list obj =
     (case obj of
        PList xs \<Rightarrow> if list_all isinstance_str xs then Inr obj else Inl CheckError
      | _ \<Rightarrow> Inl CheckError)"

section \<open>The records of the module\<close>

record TaskInfo =
  webserver_url :: string
  dag_id :: string
  task_id :: string
  metadata :: "(string, pyval) dict"

text \<open>
  A property is evaluated on access and may raise, so every accessor returns a result.
  \<^verbatim>\<open>return f"{self.webserver_url}/dags/{self.dag_id}"\<close>
\<close>

definition dag_url :: "TaskInfo \<Rightarrow> error + string" where
  "dag_url t =
     Inr (fstring [Field (TaskInfo.webserver_url t), Text ''/dags/'', Field (TaskInfo.dag_id t)])"

text \<open>
  \<^verbatim>\<open>return check.is_list(self.metadata["downstream_task_ids"], str)\<close>
  The property is cached; the record is immutable, so the cached value is this one.
\<close>

definition downstream_task_ids :: "TaskInfo \<Rightarrow> error + pyval" where
  "downstream_task_ids t =
     (case dict_getitem (TaskInfo.metadata t) ''downstream_task_ids'' of
        Inl e \<Rightarrow> Inl e
      | Inr v \<Rightarrow> is_list v)"

record DagInfo =
  webserver_url :: string
  dag_id :: string
  metadata :: "(string, pyval) dict"

text \<open>\<^verbatim>\<open>return f"{self.webserver_url}/dags/{self.dag_id}"\<close>\<close>

definition url :: "DagInfo \<Rightarrow> error + string" where
  "url d =
     Inr (fstring [Field (DagInfo.webserver_url d), Text ''/dags/'', Field (DagInfo.dag_id d)])"

text \<open>\<^verbatim>\<open>return self.metadata["file_token"]\<close>\<close>

definition file_token :: "DagInfo \<Rightarrow> error + pyval" where
  "file_token d = dict_getitem (DagInfo.metadata d) ''file_token''"

text \<open>
  \<^verbatim>\<open>class TaskHandle(NamedTuple)\<close>: a tuple of two strings with named fields. Equality
  and hashing are the ones of \<^verbatim>\<open>tuple\<close>: two tuples are equal when they have the same
  length and equal elements, and the hash of a tuple combines the hashes of its
  elements in order. The combining function and the hash of a string belong to the
  interpreter and are parameters.
\<close>

record TaskHandle =
  dag_id :: string
  task_id :: string

definition as_tuple :: "TaskHandle \<Rightarrow> string list" where
  "as_tuple h = [TaskHandle.dag_id h, TaskHandle.task_id h]"

definition TaskHandle_eq :: "TaskHandle \<Rightarrow> TaskHandle \<Rightarrow> bool" where
  "TaskHandle_eq a b = (as_tuple a = as_tuple b)"

definition TaskHandle_hash :: "(string \<Rightarrow> int) \<Rightarrow> (int list \<Rightarrow> int) \<Rightarrow> TaskHandle \<Rightarrow> int" where
  "TaskHandle_hash str_hash tuple_hash h = tuple_hash (map str_hash (as_tuple h))"

record MappedAirflowTaskData =
  task_info :: TaskInfo
  task_handle :: TaskHandle
  migrated :: "bool option"

text \<open>
  The class body declares the three fields and nothing else: no \<^verbatim>\<open>__new__\<close>, no
  validator. The constructor that \<^verbatim>\<open>@record\<close> generates checks each argument against
  the annotation of its field, which the types of the model already do, and stores it.
\<close>

definition new_MappedAirflowTaskData ::
  "TaskInfo \<Rightarrow> TaskHandle \<Rightarrow> bool option \<Rightarrow> error + MappedAirflowTaskData" where
  "new_MappedAirflowTaskData ti h m = Inr \<lparr>task_info = ti, task_handle = h, migrated = m\<rparr>"

text \<open>
  \<^verbatim>\<open>AssetKey\<close> is imported from \<^verbatim>\<open>dagster\<close>; it is the type parameter \<open>'ak\<close> of the
  records that hold it.
\<close>

record 'ak SerializedTaskHandleData =
  migration_state :: "bool option"
  asset_keys_in_task :: "'ak set"

record 'ak SerializedDagData =
  dag_id :: string
  task_handle_data :: "(string, 'ak SerializedTaskHandleData) dict"
  dag_info :: DagInfo
  source_code :: string
  leaf_asset_keys :: "'ak set"
  task_infos :: "(string, TaskInfo) dict"

record 'ak KeyScopedDataItem =
  asset_key :: 'ak
  mapped_tasks :: "MappedAirflowTaskData list"

record 'ak SerializedAirflowDefinitionsData =
  key_scoped_data_items :: "'ak KeyScopedDataItem list"
  dag_datas :: "(string, 'ak SerializedDagData) dict"

text \<open>
  \<^verbatim>\<open>return {item.asset_key: item.mapped_tasks for item in self.key_scoped_data_items}\<close>
  The comprehension starts from the empty dict and stores one pair for each item, in
  the order of the list.
\<close>

definition all_mapped_tasks ::
  "'ak SerializedAirflowDefinitionsData \<Rightarrow> ('ak, MappedAirflowTaskData list) dict" where
  "all_mapped_tasks e =
     foldl (\<lambda>d item. dict_set d (asset_key item) (mapped_tasks item)) []
       (key_scoped_data_items e)"

text \<open>
  Modelled from the spec: the lookup \<^verbatim>\<open>dagSnapshot(dag_id) -> DagSnapshot | NotFound\<close> of
  the cache envelope. The module declares the field \<^verbatim>\<open>dag_datas\<close> and no function that
  reads it; the spec says that a lookup that finds no entry "is returned as an explicit
  absent-value result, never as an error that aborts the caller's flow".
\<close>

datatype 'a lookup = Found 'a | NotFound

definition dagSnapshot ::
  "'ak SerializedAirflowDefinitionsData \<Rightarrow> string \<Rightarrow> error + 'ak SerializedDagData lookup" where
  "dagSnapshot e k =
     Inr (case dict_get (dag_datas e) k of None \<Rightarrow> NotFound | Some s \<Rightarrow> Found s)"

section \<open>Concrete records\<close>

definition extract_task :: TaskInfo where
  "extract_task =
     \<lparr>TaskInfo.webserver_url = ''http://airflow:8080'', TaskInfo.dag_id = ''etl_dag'',
      TaskInfo.task_id = ''extract'',
      TaskInfo.metadata = [(''downstream_task_ids'', PList [PStr ''load''])]\<rparr>"

definition load_task :: TaskInfo where
  "load_task =
     \<lparr>TaskInfo.webserver_url = ''http://airflow:8080'', TaskInfo.dag_id = ''etl_dag'',
      TaskInfo.task_id = ''load'', TaskInfo.metadata = []\<rparr>"

definition broken_task :: TaskInfo where
  "broken_task =
     \<lparr>TaskInfo.webserver_url = ''http://airflow:8080'', TaskInfo.dag_id = ''etl_dag'',
      TaskInfo.task_id = ''transform'',
      TaskInfo.metadata = [(''downstream_task_ids'', PList [PStr ''load'', PInt 3])]\<rparr>"

definition etl_dag_info :: DagInfo where
  "etl_dag_info =
     \<lparr>DagInfo.webserver_url = ''http://airflow:8080'', DagInfo.dag_id = ''etl_dag'',
      DagInfo.metadata = [(''file_token'', PStr ''Ii9kYWdzL2V0bC5weSI'')]\<rparr>"

definition numeric_token_dag_info :: DagInfo where
  "numeric_token_dag_info =
     \<lparr>DagInfo.webserver_url = ''http://airflow:8080'', DagInfo.dag_id = ''etl_dag'',
      DagInfo.metadata = [(''file_token'', PInt 5)]\<rparr>"

definition load_handle :: TaskHandle where
  "load_handle = \<lparr>TaskHandle.dag_id = ''etl_dag'', TaskHandle.task_id = ''load''\<rparr>"

definition stray_handle :: TaskHandle where
  "stray_handle = \<lparr>TaskHandle.dag_id = ''other_dag'', TaskHandle.task_id = ''extract''\<rparr>"

definition load_binding :: MappedAirflowTaskData where
  "load_binding = \<lparr>task_info = load_task, task_handle = load_handle, migrated = Some True\<rparr>"

definition extract_binding :: MappedAirflowTaskData where
  "extract_binding =
     \<lparr>task_info = extract_task,
      task_handle = \<lparr>TaskHandle.dag_id = ''etl_dag'', TaskHandle.task_id = ''extract''\<rparr>,
      migrated = None\<rparr>"

definition etl_dag_data :: "string SerializedDagData" where
  "etl_dag_data =
     \<lparr>SerializedDagData.dag_id = ''etl_dag'',
      task_handle_data =
        [(''load'', \<lparr>migration_state = Some True, asset_keys_in_task = {''warehouse/table''}\<rparr>)],
      dag_info = etl_dag_info, source_code = ''pass'',
      leaf_asset_keys = {''warehouse/table''},
      task_infos = [(''extract'', extract_task), (''load'', load_task)]\<rparr>"

definition envelope :: "string SerializedAirflowDefinitionsData" where
  "envelope =
     \<lparr>key_scoped_data_items =
        [\<lparr>asset_key = ''warehouse/table'', mapped_tasks = [extract_binding]\<rparr>,
         \<lparr>asset_key = ''warehouse/empty'', mapped_tasks = []\<rparr>,
         \<lparr>asset_key = ''warehouse/table'', mapped_tasks = [load_binding]\<rparr>],
      dag_datas = [(''etl_dag'', etl_dag_data)]\<rparr>"

definition unique_envelope :: "string SerializedAirflowDefinitionsData" where
  "unique_envelope =
     \<lparr>key_scoped_data_items =
        [\<lparr>asset_key = ''warehouse/empty'', mapped_tasks = []\<rparr>,
         \<lparr>asset_key = ''warehouse/table'', mapped_tasks = [load_binding]\<rparr>],
      dag_datas = []\<rparr>"

section \<open>Facts about dictionaries\<close>

text \<open>
  Storing a pair updates the lookup function at that key, keeps the keys that are
  there in their places and appends a new key at the end.
\<close>

lemma map_of_dict_set: "map_of (dict_set d k v) = (map_of d)(k \<mapsto> v)"
  by (induction d) (auto simp: fun_eq_iff)

lemma keys_dict_set:
  "map fst (dict_set d k v) = (if k \<in> fst ` set d then map fst d else map fst d @ [k])"
  by (induction d) force+

lemma dict_set_fresh: "k \<notin> fst ` set d \<Longrightarrow> dict_set d k v = d @ [(k, v)]"
  by (induction d) auto

lemma map_of_foldl_absent:
  "k \<notin> asset_key ` set items \<Longrightarrow>
   map_of (foldl (\<lambda>d item. dict_set d (asset_key item) (mapped_tasks item)) d items) k = map_of d k"
  by (induction items arbitrary: d) (auto simp: map_of_dict_set)

lemma map_of_foldl_last:
  "asset_key i \<notin> asset_key ` set ys \<Longrightarrow>
   map_of (foldl (\<lambda>d item. dict_set d (asset_key item) (mapped_tasks item)) d (xs @ i # ys)) (asset_key i)
     = Some (mapped_tasks i)"
  by (simp add: map_of_foldl_absent map_of_dict_set)

lemma foldl_distinct:
  "distinct (map fst d @ map asset_key items) \<Longrightarrow>
   foldl (\<lambda>d item. dict_set d (asset_key item) (mapped_tasks item)) d items
     = d @ map (\<lambda>i. (asset_key i, mapped_tasks i)) items"
proof (induction items arbitrary: d)
  case Nil
  then show ?case by simp
next
  case (Cons i items)
  from Cons.prems have fresh: "asset_key i \<notin> fst ` set d" by auto
  from Cons.prems have "distinct (map fst (d @ [(asset_key i, mapped_tasks i)]) @ map asset_key items)"
    by auto
  from Cons.IH [OF this] fresh show ?case by (simp add: dict_set_fresh)
qed

lemma remdups_snoc: "remdups (xs @ [k]) = remdups (filter (\<lambda>x. x \<noteq> k) xs) @ [k]"
  by (induction xs) auto

lemma keys_foldl:
  "map fst (foldl (\<lambda>d item. dict_set d (asset_key item) (mapped_tasks item)) d items)
     = map fst d @ rev (remdups (rev (filter (\<lambda>k. k \<notin> fst ` set d) (map asset_key items))))"
proof (induction items arbitrary: d)
  case Nil
  then show ?case by simp
next
  case (Cons i items)
  show ?case
  proof (cases "asset_key i \<in> fst ` set d")
    case True
    then have "fst ` set (dict_set d (asset_key i) (mapped_tasks i)) = fst ` set d"
      using keys_dict_set [of d "asset_key i" "mapped_tasks i"] by (metis list.set_map)
    with True show ?thesis by (simp add: Cons.IH keys_dict_set)
  next
    case False
    then have d': "dict_set d (asset_key i) (mapped_tasks i) = d @ [(asset_key i, mapped_tasks i)]"
      by (rule dict_set_fresh)
    have "(\<lambda>k. k \<notin> fst ` set (d @ [(asset_key i, mapped_tasks i)])) = (\<lambda>k. k \<notin> fst ` set d \<and> k \<noteq> asset_key i)"
      by auto
    with False show ?thesis
      by (simp add: Cons.IH d' remdups_snoc rev_filter [symmetric] del: rev_filter)
  qed
qed

section \<open>Facts about the metadata checks\<close>

lemma list_all_isinstance_str: "list_all isinstance_str xs \<longleftrightarrow> (\<exists>ss. xs = map PStr ss)"
proof (induction xs)
  case Nil
  then show ?case by simp
next
  case (Cons x xs)
  show ?case
  proof (cases x)
    case (PStr s)
    with Cons show ?thesis by (auto simp: Cons_eq_map_conv)
  qed (auto simp: Cons_eq_map_conv)
qed

lemma is_list_strs: "is_list (PList (map PStr ss)) = Inr (PList (map PStr ss))"
  using list_all_isinstance_str [of "map PStr ss"] by (auto simp: is_list_def)

lemma is_list_other: "\<not> (\<exists>ss. v = PList (map PStr ss)) \<Longrightarrow> is_list v = Inl CheckError"
  by (cases v) (auto simp: is_list_def list_all_isinstance_str)

lemma dict_getitem_absent: "k \<notin> fst ` set d \<Longrightarrow> dict_getitem d k = Inl (KeyError k)"
proof -
  assume "k \<notin> fst ` set d"
  then have "map_of d k = None" by (simp add: map_of_eq_None_iff)
  then show ?thesis by (simp add: dict_getitem_def)
qed

lemma dict_getitem_present: "map_of d k = Some v \<Longrightarrow> dict_getitem d k = Inr v"
  by (simp add: dict_getitem_def)

lemma file_token_missing_key:
  "''file_token'' \<notin> fst ` set (DagInfo.metadata d) \<Longrightarrow> file_token d = Inl (KeyError ''file_token'')"
  by (simp add: file_token_def dict_getitem_absent)

lemma file_token_read_through:
  "map_of (DagInfo.metadata d) ''file_token'' = Some v \<Longrightarrow> file_token d = Inr v"
  by (simp add: file_token_def dict_getitem_present)

section \<open>The URL accessors\<close>

text \<open>
  C7. For every TaskInfo \<open>t\<close>, \<open>dag_url t\<close> is the concatenation of the webserver URL of
  \<open>t\<close>, the literal \<^verbatim>\<open>/dags/\<close> and the dag id of \<open>t\<close>; for every DagInfo \<open>d\<close>, \<open>url d\<close>
  is the concatenation of the webserver URL of \<open>d\<close>, \<^verbatim>\<open>/dags/\<close> and the dag id of \<open>d\<close>.
\<close>

theorem url_is_concatenation:
  "dag_url t = Inr (TaskInfo.webserver_url t @ ''/dags/'' @ TaskInfo.dag_id t)
   \<and> url d = Inr (DagInfo.webserver_url d @ ''/dags/'' @ DagInfo.dag_id d)"
  by (simp add: dag_url_def url_def)

theorem url_is_concatenation_witness:
  "dag_url load_task = Inr ''http://airflow:8080/dags/etl_dag''
   \<and> url etl_dag_info = Inr ''http://airflow:8080/dags/etl_dag''"
  using url_is_concatenation [of load_task etl_dag_info]
  by (simp add: load_task_def etl_dag_info_def)

text \<open>
  C10. The URL accessors are total and do not read the metadata: for every TaskInfo
  and every DagInfo the access returns a string and never raises, whatever the
  metadata holds (also when it is empty or lacks the required keys), and two records
  that agree on every field but the metadata have the same URL.
\<close>

theorem url_ignores_metadata:
  "(TaskInfo.webserver_url t = TaskInfo.webserver_url t' \<and> TaskInfo.dag_id t = TaskInfo.dag_id t'
      \<and> TaskInfo.task_id t = TaskInfo.task_id t' \<longrightarrow> dag_url t = dag_url t')
   \<and> (DagInfo.webserver_url d = DagInfo.webserver_url d' \<and> DagInfo.dag_id d = DagInfo.dag_id d'
      \<longrightarrow> url d = url d')
   \<and> (\<exists>s. dag_url t = Inr s) \<and> (\<exists>s. url d = Inr s)"
  by (simp add: dag_url_def url_def)

theorem url_ignores_metadata_witness:
  "dag_url load_task = Inr ''http://airflow:8080/dags/etl_dag''
   \<and> dag_url (extract_task\<lparr>TaskInfo.task_id := ''load''\<rparr>) = dag_url load_task
   \<and> downstream_task_ids load_task = Inl (KeyError ''downstream_task_ids'')
   \<and> url (etl_dag_info\<lparr>DagInfo.metadata := []\<rparr>) = url etl_dag_info
   \<and> file_token (etl_dag_info\<lparr>DagInfo.metadata := []\<rparr>) = Inl (KeyError ''file_token'')"
  using
    url_ignores_metadata [of "extract_task\<lparr>TaskInfo.task_id := ''load''\<rparr>" load_task
      "etl_dag_info\<lparr>DagInfo.metadata := []\<rparr>" etl_dag_info]
  by (simp add: extract_task_def load_task_def etl_dag_info_def dag_url_def
      downstream_task_ids_def file_token_def dict_getitem_def)

section \<open>The metadata accessors\<close>

text \<open>
  C3. For every TaskInfo \<open>t\<close>: when the metadata has no key \<^verbatim>\<open>downstream_task_ids\<close>, the
  access raises (\<^verbatim>\<open>KeyError\<close>); when the value under the key is not a list of strings,
  which covers every value that is not a sequence of strings, the access raises
  (\<^verbatim>\<open>CheckError\<close>); no default is returned in either case. These two exceptions are
  what the spec calls a schema-contract violation. A list of strings is returned as it
  is.
\<close>

theorem downstream_task_ids_fails_fast:
  "(''downstream_task_ids'' \<notin> fst ` set (TaskInfo.metadata t)
      \<longrightarrow> downstream_task_ids t = Inl (KeyError ''downstream_task_ids''))
   \<and> (map_of (TaskInfo.metadata t) ''downstream_task_ids'' = Some v
        \<and> \<not> (\<exists>ss. v = PList (map PStr ss))
      \<longrightarrow> downstream_task_ids t = Inl CheckError)
   \<and> (map_of (TaskInfo.metadata t) ''downstream_task_ids'' = Some (PList (map PStr ss))
      \<longrightarrow> downstream_task_ids t = Inr (PList (map PStr ss)))"
  by (simp add: downstream_task_ids_def dict_getitem_absent dict_getitem_present
      is_list_strs is_list_other)

theorem downstream_task_ids_fails_fast_witness:
  "downstream_task_ids load_task = Inl (KeyError ''downstream_task_ids'')
   \<and> downstream_task_ids broken_task = Inl CheckError
   \<and> downstream_task_ids (load_task\<lparr>TaskInfo.metadata := [(''downstream_task_ids'', PTuple [PStr ''load''])]\<rparr>) = Inl CheckError
   \<and> downstream_task_ids extract_task = Inr (PList [PStr ''load''])"
proof -
  have a: "''downstream_task_ids'' \<notin> fst ` set (TaskInfo.metadata load_task)"
    by (simp add: load_task_def)
  have b: "map_of (TaskInfo.metadata broken_task) ''downstream_task_ids''
             = Some (PList [PStr ''load'', PInt 3])
           \<and> \<not> (\<exists>ss. PList [PStr ''load'', PInt 3] = PList (map PStr ss))"
    by (auto simp: broken_task_def Cons_eq_map_conv)
  have c: "map_of (TaskInfo.metadata (load_task\<lparr>TaskInfo.metadata := [(''downstream_task_ids'', PTuple [PStr ''load''])]\<rparr>)) ''downstream_task_ids''
             = Some (PTuple [PStr ''load''])
           \<and> \<not> (\<exists>ss. PTuple [PStr ''load''] = PList (map PStr ss))"
    by simp
  have d: "map_of (TaskInfo.metadata extract_task) ''downstream_task_ids''
             = Some (PList (map PStr [''load'']))"
    by (simp add: extract_task_def)
  show ?thesis
    using a b c d
      downstream_task_ids_fails_fast [of load_task]
      downstream_task_ids_fails_fast [of broken_task "PList [PStr ''load'', PInt 3]"]
      downstream_task_ids_fails_fast [of "load_task\<lparr>TaskInfo.metadata := [(''downstream_task_ids'', PTuple [PStr ''load''])]\<rparr>" "PTuple [PStr ''load'']"]
      downstream_task_ids_fails_fast [of extract_task _ "[''load'']"]
    by simp
qed

text \<open>
  C2. The claim says that \<open>file_token\<close> never returns a value that is not a string.
  The accessor returns whatever is stored under \<^verbatim>\<open>file_token\<close>: with the integer 5
  there, it returns the integer 5, although it is declared to return a \<^verbatim>\<open>str\<close> and the
  sibling accessor \<open>downstream_task_ids\<close> checks the type of what it reads.
\<close>

theorem file_token_returns_non_string:
  "file_token numeric_token_dag_info = Inr (PInt 5) \<and> \<not> isinstance_str (PInt 5)"
  by (simp add: file_token_def numeric_token_dag_info_def dict_getitem_def)

section \<open>Construction of a binding\<close>

text \<open>
  C1 (as amended). Constructing a MappedAirflowTaskData never fails: it stores the task
  info, the handle and the migration flag as they are given and compares nothing. So
  the dag id and the task id of the handle of a binding agree with those of its task
  info exactly when the caller supplied a handle that agrees with the task info.
\<close>

theorem new_MappedAirflowTaskData_stores_arguments:
  "\<exists>b. new_MappedAirflowTaskData ti h m = Inr b
     \<and> task_info b = ti \<and> task_handle b = h \<and> migrated b = m
     \<and> ((TaskHandle.dag_id (task_handle b) = TaskInfo.dag_id (task_info b)
          \<and> TaskHandle.task_id (task_handle b) = TaskInfo.task_id (task_info b))
        \<longleftrightarrow> (TaskHandle.dag_id h = TaskInfo.dag_id ti
             \<and> TaskHandle.task_id h = TaskInfo.task_id ti))"
  by (simp add: new_MappedAirflowTaskData_def)

theorem new_MappedAirflowTaskData_stores_arguments_witness:
  "new_MappedAirflowTaskData load_task load_handle (Some True) = Inr load_binding
   \<and> TaskHandle.dag_id (task_handle load_binding) = TaskInfo.dag_id (task_info load_binding)
   \<and> TaskHandle.task_id (task_handle load_binding) = TaskInfo.task_id (task_info load_binding)"
proof -
  from new_MappedAirflowTaskData_stores_arguments [of load_task load_handle "Some True"]
  obtain b where b: "new_MappedAirflowTaskData load_task load_handle (Some True) = Inr b"
    and f: "task_info b = load_task" "task_handle b = load_handle" "migrated b = Some True"
    and iff: "(TaskHandle.dag_id (task_handle b) = TaskInfo.dag_id (task_info b)
          \<and> TaskHandle.task_id (task_handle b) = TaskInfo.task_id (task_info b))
        \<longleftrightarrow> (TaskHandle.dag_id load_handle = TaskInfo.dag_id load_task
             \<and> TaskHandle.task_id load_handle = TaskInfo.task_id load_task)"
    by blast
  from f have "b = load_binding" by (simp add: load_binding_def)
  with b iff show ?thesis by (simp add: load_handle_def load_task_def)
qed

text \<open>
  The claim as stated fails: a handle for another dag and another task is accepted with
  the task info of \<^verbatim>\<open>load\<close>, and the binding is a value whose two identifiers disagree.
\<close>

theorem mismatched_binding_is_constructed:
  "new_MappedAirflowTaskData load_task stray_handle None
     = Inr \<lparr>task_info = load_task, task_handle = stray_handle, migrated = None\<rparr>
   \<and> TaskHandle.dag_id stray_handle \<noteq> TaskInfo.dag_id load_task
   \<and> TaskHandle.task_id stray_handle \<noteq> TaskInfo.task_id load_task"
  by (simp add: new_MappedAirflowTaskData_def stray_handle_def load_task_def)

section \<open>Structural equality of task handles\<close>

text \<open>
  C8. Two task handles are equal if and only if their dag ids are equal and their task
  ids are equal; equal handles have equal hashes, whatever the hash of a string and the
  combining function of the interpreter are; and equal handles are interchangeable as
  dictionary keys: a lookup gives the same result for both, and a value stored under
  one is found under the other.
\<close>

theorem TaskHandle_structural:
  "(TaskHandle_eq a b \<longleftrightarrow>
      TaskHandle.dag_id a = TaskHandle.dag_id b \<and> TaskHandle.task_id a = TaskHandle.task_id b)
   \<and> (TaskHandle_eq a b \<longrightarrow>
        TaskHandle_hash str_hash tuple_hash a = TaskHandle_hash str_hash tuple_hash b)
   \<and> (TaskHandle_eq a b \<longrightarrow>
        dict_get d a = dict_get d b \<and> dict_get (dict_set d a v) b = Some v)"
proof -
  have eq: "TaskHandle_eq a b \<longleftrightarrow>
      TaskHandle.dag_id a = TaskHandle.dag_id b \<and> TaskHandle.task_id a = TaskHandle.task_id b"
    by (simp add: TaskHandle_eq_def as_tuple_def)
  have hash: "TaskHandle_eq a b \<longrightarrow>
        TaskHandle_hash str_hash tuple_hash a = TaskHandle_hash str_hash tuple_hash b"
    by (simp add: TaskHandle_eq_def TaskHandle_hash_def)
  have same: "TaskHandle_eq a b \<longrightarrow> a = b"
    using eq by simp
  then have key: "TaskHandle_eq a b \<longrightarrow>
        dict_get d a = dict_get d b \<and> dict_get (dict_set d a v) b = Some v"
    by (auto simp: dict_get_def map_of_dict_set)
  from eq hash key show ?thesis by blast
qed

theorem TaskHandle_structural_witness:
  "TaskHandle_eq load_handle \<lparr>TaskHandle.dag_id = ''etl_'' @ ''dag'', TaskHandle.task_id = ''load''\<rparr>
   \<and> \<not> TaskHandle_eq load_handle stray_handle
   \<and> TaskHandle_hash (\<lambda>s. int (length s)) sum_list load_handle
       = TaskHandle_hash (\<lambda>s. int (length s)) sum_list
           \<lparr>TaskHandle.dag_id = ''etl_'' @ ''dag'', TaskHandle.task_id = ''load''\<rparr>
   \<and> dict_get (dict_set [(stray_handle, False)] load_handle True)
        \<lparr>TaskHandle.dag_id = ''etl_'' @ ''dag'', TaskHandle.task_id = ''load''\<rparr> = Some True"
proof -
  let ?b = "\<lparr>TaskHandle.dag_id = ''etl_'' @ ''dag'', TaskHandle.task_id = ''load''\<rparr>"
  note same = TaskHandle_structural [of load_handle ?b
      "\<lambda>s. int (length s)" sum_list "[(stray_handle, False)]" True]
  note other = TaskHandle_structural [of load_handle stray_handle
      "\<lambda>s. int (length s)" sum_list "[]" True]
  have fields: "TaskHandle.dag_id load_handle = TaskHandle.dag_id ?b
      \<and> TaskHandle.task_id load_handle = TaskHandle.task_id ?b"
    by (simp add: load_handle_def)
  with same have eq: "TaskHandle_eq load_handle ?b" by blast
  have "TaskHandle.dag_id load_handle \<noteq> TaskHandle.dag_id stray_handle"
    by (simp add: load_handle_def stray_handle_def)
  with other have neq: "\<not> TaskHandle_eq load_handle stray_handle" by blast
  from eq neq same show ?thesis by blast
qed

section \<open>The derived map of mapped tasks\<close>

text \<open>
  C4. \<open>all_mapped_tasks\<close> is built by one pass over \<open>key_scoped_data_items\<close> in the order
  of the list. An entry whose asset key does not occur again later determines the
  value under its key, so of two entries with the same key the later one overwrites
  the earlier one; a key of no entry is absent; the keys are those of the entries, in
  the order of their first occurrence; and when the asset keys are distinct, the map
  is the list of the pairs of the entries, each key with exactly the list of its
  entry.
\<close>

theorem all_mapped_tasks_later_entry_wins:
  "(key_scoped_data_items e = xs @ i # ys \<and> asset_key i \<notin> asset_key ` set ys
      \<longrightarrow> dict_get (all_mapped_tasks e) (asset_key i) = Some (mapped_tasks i))
   \<and> (k \<notin> asset_key ` set (key_scoped_data_items e)
      \<longrightarrow> dict_get (all_mapped_tasks e) k = None)
   \<and> map fst (all_mapped_tasks e)
        = rev (remdups (rev (map asset_key (key_scoped_data_items e))))
   \<and> (distinct (map asset_key (key_scoped_data_items e))
      \<longrightarrow> all_mapped_tasks e
            = map (\<lambda>i. (asset_key i, mapped_tasks i)) (key_scoped_data_items e))
   \<and> (distinct (map asset_key (key_scoped_data_items e)) \<and> j \<in> set (key_scoped_data_items e)
      \<longrightarrow> dict_get (all_mapped_tasks e) (asset_key j) = Some (mapped_tasks j))"
proof -
  have last: "key_scoped_data_items e = xs @ i # ys \<and> asset_key i \<notin> asset_key ` set ys
      \<longrightarrow> dict_get (all_mapped_tasks e) (asset_key i) = Some (mapped_tasks i)"
  proof (intro impI, elim conjE)
    assume items: "key_scoped_data_items e = xs @ i # ys"
      and later: "asset_key i \<notin> asset_key ` set ys"
    from map_of_foldl_last [OF later, where d = "[]" and xs = xs]
    show "dict_get (all_mapped_tasks e) (asset_key i) = Some (mapped_tasks i)"
      unfolding all_mapped_tasks_def dict_get_def items .
  qed
  have absent: "k \<notin> asset_key ` set (key_scoped_data_items e)
      \<longrightarrow> dict_get (all_mapped_tasks e) k = None"
    by (simp add: all_mapped_tasks_def dict_get_def map_of_foldl_absent)
  have keys: "map fst (all_mapped_tasks e)
        = rev (remdups (rev (map asset_key (key_scoped_data_items e))))"
    by (simp add: all_mapped_tasks_def keys_foldl)
  have uniq: "distinct (map asset_key (key_scoped_data_items e))
      \<longrightarrow> all_mapped_tasks e
            = map (\<lambda>i. (asset_key i, mapped_tasks i)) (key_scoped_data_items e)"
    using foldl_distinct [of "[]" "key_scoped_data_items e"]
    by (simp add: all_mapped_tasks_def)
  have each: "distinct (map asset_key (key_scoped_data_items e))
        \<and> j \<in> set (key_scoped_data_items e)
      \<longrightarrow> dict_get (all_mapped_tasks e) (asset_key j) = Some (mapped_tasks j)"
  proof (intro impI, elim conjE)
    assume dist: "distinct (map asset_key (key_scoped_data_items e))"
      and mem: "j \<in> set (key_scoped_data_items e)"
    from mem obtain before after where items: "key_scoped_data_items e = before @ j # after"
      by (auto simp: in_set_conv_decomp)
    with dist have later: "asset_key j \<notin> asset_key ` set after" by auto
    from map_of_foldl_last [OF later, where d = "[]" and xs = before]
    show "dict_get (all_mapped_tasks e) (asset_key j) = Some (mapped_tasks j)"
      unfolding all_mapped_tasks_def dict_get_def items .
  qed
  from last absent keys uniq each show ?thesis by blast
qed

theorem all_mapped_tasks_later_entry_wins_witness:
  "dict_get (all_mapped_tasks envelope) ''warehouse/table'' = Some [load_binding]
   \<and> dict_get (all_mapped_tasks envelope) ''warehouse/other'' = None
   \<and> map fst (all_mapped_tasks envelope) = [''warehouse/table'', ''warehouse/empty'']
   \<and> all_mapped_tasks unique_envelope
        = [(''warehouse/empty'', []), (''warehouse/table'', [load_binding])]
   \<and> dict_get (all_mapped_tasks unique_envelope) ''warehouse/table'' = Some [load_binding]"
proof -
  let ?first = "\<lparr>asset_key = ''warehouse/table'', mapped_tasks = [extract_binding]\<rparr>"
  let ?empty = "\<lparr>asset_key = ''warehouse/empty'', mapped_tasks = []\<rparr>"
  let ?last = "\<lparr>asset_key = ''warehouse/table'', mapped_tasks = [load_binding]\<rparr>"
  note dup = all_mapped_tasks_later_entry_wins
    [where e = envelope and xs = "[?first, ?empty]" and i = ?last and ys = "[]"
       and k = "''warehouse/other''" and j = ?last]
  note uni = all_mapped_tasks_later_entry_wins
    [where e = unique_envelope and xs = "[?empty]" and i = ?last and ys = "[]"
       and k = "''warehouse/other''" and j = ?last]
  have split: "key_scoped_data_items envelope = [?first, ?empty] @ ?last # []
      \<and> asset_key ?last \<notin> asset_key ` set []"
    by (simp add: envelope_def)
  with dup have a: "dict_get (all_mapped_tasks envelope) ''warehouse/table'' = Some [load_binding]"
    by simp
  have "''warehouse/other'' \<notin> asset_key ` set (key_scoped_data_items envelope)"
    by (simp add: envelope_def)
  with dup have b: "dict_get (all_mapped_tasks envelope) ''warehouse/other'' = None"
    by blast
  from dup have c: "map fst (all_mapped_tasks envelope) = [''warehouse/table'', ''warehouse/empty'']"
    by (simp add: envelope_def)
  have uniq: "distinct (map asset_key (key_scoped_data_items unique_envelope))"
    by (simp add: unique_envelope_def)
  with uni have d: "all_mapped_tasks unique_envelope
      = [(''warehouse/empty'', []), (''warehouse/table'', [load_binding])]"
    by (simp add: unique_envelope_def)
  have "?last \<in> set (key_scoped_data_items unique_envelope)"
    by (simp add: unique_envelope_def)
  with uniq uni
  have "dict_get (all_mapped_tasks unique_envelope) (asset_key ?last) = Some (mapped_tasks ?last)"
    by blast
  then have e: "dict_get (all_mapped_tasks unique_envelope) ''warehouse/table'' = Some [load_binding]"
    by simp
  from a b c d e show ?thesis by blast
qed

text \<open>
  C9. Nothing is filtered: an entry with an empty list of mapped tasks, whose asset key
  is not repeated later in the list, leaves its key in \<open>all_mapped_tasks\<close>, with the
  empty list as its value.
\<close>

theorem all_mapped_tasks_keeps_empty_lists:
  "key_scoped_data_items e = xs @ i # ys \<Longrightarrow> mapped_tasks i = []
   \<Longrightarrow> asset_key i \<notin> asset_key ` set ys
   \<Longrightarrow> asset_key i \<in> fst ` set (all_mapped_tasks e)
       \<and> dict_get (all_mapped_tasks e) (asset_key i) = Some []"
proof -
  assume items: "key_scoped_data_items e = xs @ i # ys" and empty: "mapped_tasks i = []"
    and later: "asset_key i \<notin> asset_key ` set ys"
  from map_of_foldl_last [OF later, where d = "[]" and xs = xs]
  have "map_of (all_mapped_tasks e) (asset_key i) = Some (mapped_tasks i)"
    unfolding all_mapped_tasks_def items .
  with empty have get: "map_of (all_mapped_tasks e) (asset_key i) = Some []" by simp
  then have "(asset_key i, []) \<in> set (all_mapped_tasks e)" by (rule map_of_SomeD)
  then have "asset_key i \<in> fst ` set (all_mapped_tasks e)" by force
  with get show ?thesis by (simp add: dict_get_def)
qed

theorem all_mapped_tasks_keeps_empty_lists_witness:
  "''warehouse/empty'' \<in> fst ` set (all_mapped_tasks envelope)
   \<and> dict_get (all_mapped_tasks envelope) ''warehouse/empty'' = Some []"
proof -
  have split: "key_scoped_data_items envelope =
      [\<lparr>asset_key = ''warehouse/table'', mapped_tasks = [extract_binding]\<rparr>]
      @ \<lparr>asset_key = ''warehouse/empty'', mapped_tasks = []\<rparr>
      # [\<lparr>asset_key = ''warehouse/table'', mapped_tasks = [load_binding]\<rparr>]"
    by (simp add: envelope_def)
  have empty: "mapped_tasks \<lparr>asset_key = ''warehouse/empty'', mapped_tasks = []\<rparr> = []"
    by simp
  have later: "asset_key \<lparr>asset_key = ''warehouse/empty'', mapped_tasks = []\<rparr>
      \<notin> asset_key ` set [\<lparr>asset_key = ''warehouse/table'', mapped_tasks = [load_binding]\<rparr>]"
    by simp
  from all_mapped_tasks_keeps_empty_lists [OF split empty later] show ?thesis by simp
qed

section \<open>Lookup of a dag\<close>

text \<open>
  C6. For every envelope and every dag id that is not a key of \<open>dag_datas\<close>, the lookup
  of the dag returns the absent value \<open>NotFound\<close>: it raises no error and it returns no
  snapshot, a default one included.
\<close>

theorem dagSnapshot_absent_is_NotFound:
  "k \<notin> fst ` set (dag_datas e) \<Longrightarrow>
   dagSnapshot e k = Inr NotFound
   \<and> (\<forall>err. dagSnapshot e k \<noteq> Inl err) \<and> (\<forall>s. dagSnapshot e k \<noteq> Inr (Found s))"
proof -
  assume "k \<notin> fst ` set (dag_datas e)"
  then have "map_of (dag_datas e) k = None" by (simp add: map_of_eq_None_iff)
  then show ?thesis by (simp add: dagSnapshot_def dict_get_def)
qed

theorem dagSnapshot_absent_is_NotFound_witness:
  "dagSnapshot envelope ''nonexistent_dag'' = Inr NotFound
   \<and> dagSnapshot envelope ''etl_dag'' = Inr (Found etl_dag_data)"
proof -
  have "''nonexistent_dag'' \<notin> fst ` set (dag_datas envelope)"
    by (simp add: envelope_def)
  from dagSnapshot_absent_is_NotFound [OF this] show ?thesis
    by (simp add: dagSnapshot_def dict_get_def envelope_def)
qed

end
